theory Spec2Isabelle
  imports Complex_Main "HOL-Library.Sublist"
begin

section \<open>Exceptions, configuration and module constants\<close>

text \<open>
  The exception classes that \<^verbatim>\<open>main.py\<close> tells apart: \<^verbatim>\<open>ValueError\<close> (raised by the
  credential checks, caught by name in \<^verbatim>\<open>main\<close>), \<^verbatim>\<open>TelegramError\<close> (caught by name in
  \<^verbatim>\<open>send_photo\<close>) and every other subclass of \<^verbatim>\<open>Exception\<close> (for instance
  \<^verbatim>\<open>cv2.error\<close> or \<^verbatim>\<open>OSError\<close>). Each carries the text that \<^verbatim>\<open>str(e)\<close> yields.
  Signals that are not subclasses of \<^verbatim>\<open>Exception\<close> (a keyboard interrupt, the
  cancellation of a task) come from outside the program and are not part of the model.
\<close>

datatype exn = ValueError string | TelegramError string | Exception string

fun str_exn :: "exn \<Rightarrow> string" where
  "str_exn (ValueError m) = m"
| "str_exn (TelegramError m) = m"
| "str_exn (Exception m) = m"

text \<open>The two credentials, once the module-level check has found both set.\<close>

record config =
  TELEGRAM_TOKEN :: string
  CHAT_ID :: string

definition MIN_CONTOUR_AREA :: real where
  "MIN_CONTOUR_AREA = 5000"

definition SEND_INTERVAL :: real where
  "SEND_INTERVAL = 3"

section \<open>Logging\<close>

datatype level = DEBUG | INFO | WARNING | ERROR

fun levelno :: "level \<Rightarrow> nat" where
  "levelno DEBUG = 10"
| "levelno INFO = 20"
| "levelno WARNING = 30"
| "levelno ERROR = 40"

fun levelname_str :: "level \<Rightarrow> string" where
  "levelname_str DEBUG = ''DEBUG''"
| "levelname_str INFO = ''INFO''"
| "levelname_str WARNING = ''WARNING''"
| "levelname_str ERROR = ''ERROR''"

record log_record =
  levelname :: level
  message :: string

text \<open>
  \<^verbatim>\<open>setup_logging\<close> sets the root logger to \<^verbatim>\<open>INFO\<close>; the module logger inherits that
  level, so a record below it is dropped and every other one is handed to the single
  console handler. The console is the list of records handed over, oldest first.
\<close>

definition logger_log :: "level \<Rightarrow> string \<Rightarrow> log_record list \<Rightarrow> log_record list" where
  "logger_log lvl msg out =
     (if levelno INFO \<le> levelno lvl then out @ [\<lparr>levelname = lvl, message = msg\<rparr>] else out)"

subsection \<open>String replacement and the masking formatter\<close>

text \<open>
  \<^verbatim>\<open>str.replace(old, new)\<close> for a non-empty \<^verbatim>\<open>old\<close>: scan from the left, replace each
  occurrence found and go on behind it, so that occurrences never overlap.
\<close>

function replace_nonempty :: "'a list \<Rightarrow> 'a list \<Rightarrow> 'a list \<Rightarrow> 'a list" where
  "replace_nonempty old new [] = []"
| "replace_nonempty old new (c # cs) =
     (if old \<noteq> [] \<and> prefix old (c # cs)
      then new @ replace_nonempty old new (drop (length old) (c # cs))
      else c # replace_nonempty old new cs)"
  by pat_completeness auto
termination
  by (relation "measure (\<lambda>(old, new, s). length s)") auto

text \<open>With an empty \<^verbatim>\<open>old\<close>, Python puts \<^verbatim>\<open>new\<close> before every character and at the end.\<close>

definition str_replace :: "'a list \<Rightarrow> 'a list \<Rightarrow> 'a list \<Rightarrow> 'a list" where
  "str_replace s old new =
     (if old = [] then new @ concat (map (\<lambda>c. c # new) s) else replace_nonempty old new s)"

text \<open>
  \<^verbatim>\<open>logging.Formatter.format\<close> with the format string of \<^verbatim>\<open>setup_logging\<close>:
  \<^verbatim>\<open>%(asctime)s - %(name)s - %(levelname)s - %(message)s\<close>. The time stamp and the
  logger's name are supplied by the logging library.
\<close>

definition Formatter_format :: "string \<Rightarrow> string \<Rightarrow> log_record \<Rightarrow> string" where
  "Formatter_format asctime name r =
     asctime @ '' - '' @ name @ '' - '' @ levelname_str (levelname r) @ '' - '' @ message r"

text \<open>The loop of \<^verbatim>\<open>SecureFormatter.format\<close> over \<^verbatim>\<open>self.secrets\<close>.\<close>

fun mask_secrets :: "string list \<Rightarrow> string \<Rightarrow> string" where
  "mask_secrets [] formatted = formatted"
| "mask_secrets (secret # secrets) formatted =
     mask_secrets secrets
       (if secret \<noteq> [] \<and> 4 < length secret then str_replace formatted secret ''***''
        else formatted)"

definition SecureFormatter_format :: "string list \<Rightarrow> string \<Rightarrow> string \<Rightarrow> log_record \<Rightarrow> string" where
  "SecureFormatter_format secrets asctime name r =
     mask_secrets secrets (Formatter_format asctime name r)"

text \<open>The formatter that \<^verbatim>\<open>setup_logging\<close> installs masks the token and the chat id.\<close>

definition console_line :: "config \<Rightarrow> string \<Rightarrow> string \<Rightarrow> log_record \<Rightarrow> string" where
  "console_line cfg asctime name r =
     SecureFormatter_format [TELEGRAM_TOKEN cfg, CHAT_ID cfg] asctime name r"

section \<open>The detector\<close>

text \<open>
  The fields of \<^verbatim>\<open>MotionDetector\<close>. Frames, masks and contours are all arrays of one
  type \<open>'a\<close>; \<open>'b\<close> is the state of the background subtractor. Three fields record
  effects on the outside: the console, the calls of \<^verbatim>\<open>send_photo\<close> with the frame and
  the caption each one passes on, and whether \<^verbatim>\<open>self.cap.release()\<close> has run.
\<close>

record ('a, 'b) detector =
  last_sent :: real
  frame_count :: nat
  latest_frame :: "'a option"
  back_sub :: 'b
  cap_released :: bool
  console :: "log_record list"
  send_attempts :: "('a \<times> string) list"

subsection \<open>Sending a photo\<close>

text \<open>
  What the \<^verbatim>\<open>try\<close> body of \<^verbatim>\<open>send_photo\<close> does (writing the file, opening it, the
  bot's call) is decided outside the program: it runs through, or one of its steps raises.
\<close>

datatype delivery = Delivered | Raised exn

definition sanitize :: "config \<Rightarrow> string \<Rightarrow> string" where
  "sanitize cfg error_msg =
     (let error_msg = (if sublist (TELEGRAM_TOKEN cfg) error_msg
                       then str_replace error_msg (TELEGRAM_TOKEN cfg) ''***'' else error_msg)
      in if sublist (CHAT_ID cfg) error_msg
         then str_replace error_msg (CHAT_ID cfg) ''***'' else error_msg)"

text \<open>
  \<^verbatim>\<open>caption or f'Motion detected! ({time.ctime()})'\<close>: a missing or empty caption
  gives the default, built from the text of \<^verbatim>\<open>time.ctime()\<close>.
\<close>

definition caption_or_default :: "string option \<Rightarrow> string \<Rightarrow> string" where
  "caption_or_default caption ctime =
     (case caption of
        None \<Rightarrow> ''Motion detected! ('' @ ctime @ '')''
      | Some c \<Rightarrow> if c = [] then ''Motion detected! ('' @ ctime @ '')'' else c)"

definition send_photo ::
  "config \<Rightarrow> string \<Rightarrow> delivery \<Rightarrow> 'a \<Rightarrow> string option \<Rightarrow> ('a, 'b) detector \<Rightarrow> ('a, 'b) detector" where
  "send_photo cfg ctime outcome frame caption st =
     (let st = st\<lparr>send_attempts := send_attempts st @ [(frame, caption_or_default caption ctime)]\<rparr>
      in case outcome of
           Delivered \<Rightarrow>
             st\<lparr>console := logger_log INFO ''Photo sent successfully to Telegram'' (console st)\<rparr>
         | Raised (TelegramError m) \<Rightarrow>
             st\<lparr>console := logger_log ERROR (''Telegram send error: '' @ sanitize cfg m) (console st)\<rparr>
         | Raised e \<Rightarrow>
             st\<lparr>console := logger_log ERROR (''Unexpected error sending photo: '' @ str_exn e)
                              (console st)\<rparr>)"

subsection \<open>The motion pipeline\<close>

datatype morph = MORPH_CLOSE | MORPH_OPEN

text \<open>
  The OpenCV routines that \<^verbatim>\<open>process_frame\<close> calls, with the arguments the source fixes
  (\<^verbatim>\<open>COLOR_BGR2GRAY\<close>, the 21 by 21 blur, the 5 by 5 elliptic kernel,
  \<^verbatim>\<open>RETR_EXTERNAL\<close>, \<^verbatim>\<open>CHAIN_APPROX_SIMPLE\<close>). Each one returns its result or raises;
  the background subtractor also changes its own state. \<open>str_area\<close> is Python's
  \<^verbatim>\<open>str\<close> of an area, used by the debug message.
\<close>

record ('a, 'b) cv2 =
  cvtColor :: "'a \<Rightarrow> exn + 'a"
  GaussianBlur :: "'a \<Rightarrow> exn + 'a"
  back_sub_apply :: "'b \<Rightarrow> 'a \<Rightarrow> 'b \<times> (exn + 'a)"
  getStructuringElement :: "exn + 'a"
  morphologyEx :: "'a \<Rightarrow> morph \<Rightarrow> 'a \<Rightarrow> exn + 'a"
  findContours :: "'a \<Rightarrow> exn + 'a list"
  contourArea :: "'a \<Rightarrow> exn + real"
  str_area :: "real \<Rightarrow> string"

text \<open>The \<^verbatim>\<open>for contour in contours\<close> loop with its \<^verbatim>\<open>break\<close>.\<close>

fun contour_loop ::
  "('a, 'b) cv2 \<Rightarrow> 'a list \<Rightarrow> ('a, 'b) detector \<Rightarrow> (exn + bool) \<times> ('a, 'b) detector" where
  "contour_loop cv [] st = (Inr False, st)"
| "contour_loop cv (contour # contours) st =
     (case contourArea cv contour of
        Inl e \<Rightarrow> (Inl e, st)
      | Inr area \<Rightarrow>
          if area > MIN_CONTOUR_AREA
          then (Inr True,
                st\<lparr>console := logger_log DEBUG
                   (''Significant motion detected - contour area: '' @ str_area cv area)
                   (console st)\<rparr>)
          else contour_loop cv contours st)"

text \<open>The body of the \<^verbatim>\<open>try\<close> in \<^verbatim>\<open>process_frame\<close>: the value returned, or the exception.\<close>

definition process_frame_try ::
  "('a, 'b) cv2 \<Rightarrow> 'a \<Rightarrow> ('a, 'b) detector \<Rightarrow> (exn + bool) \<times> ('a, 'b) detector" where
  "process_frame_try cv frame st =
     (case cvtColor cv frame of Inl e \<Rightarrow> (Inl e, st) | Inr gray \<Rightarrow>
      case GaussianBlur cv gray of Inl e \<Rightarrow> (Inl e, st) | Inr gray \<Rightarrow>
      case back_sub_apply cv (back_sub st) gray of (bs, applied) \<Rightarrow>
        let st = st\<lparr>back_sub := bs\<rparr> in
        case applied of Inl e \<Rightarrow> (Inl e, st) | Inr fg_mask \<Rightarrow>
        case getStructuringElement cv of Inl e \<Rightarrow> (Inl e, st) | Inr kernel_el \<Rightarrow>
        case morphologyEx cv fg_mask MORPH_CLOSE kernel_el of Inl e \<Rightarrow> (Inl e, st) | Inr fg_mask \<Rightarrow>
        case morphologyEx cv fg_mask MORPH_OPEN kernel_el of Inl e \<Rightarrow> (Inl e, st) | Inr fg_mask \<Rightarrow>
        case findContours cv fg_mask of Inl e \<Rightarrow> (Inl e, st) | Inr contours \<Rightarrow>
        contour_loop cv contours st)"

definition process_frame ::
  "('a, 'b) cv2 \<Rightarrow> 'a \<Rightarrow> ('a, 'b) detector \<Rightarrow> bool \<times> ('a, 'b) detector" where
  "process_frame cv frame st =
     (case process_frame_try cv frame st of
        (Inr motion_detected, st) \<Rightarrow> (motion_detected, st)
      | (Inl e, st) \<Rightarrow>
          (False,
           st\<lparr>console := logger_log ERROR (''Error processing frame: '' @ str_exn e) (console st)\<rparr>))"

subsection \<open>The capture loop\<close>

text \<open>
  What one pass of the \<^verbatim>\<open>while True\<close> loop of \<^verbatim>\<open>run\<close> takes from outside:
  the result of \<^verbatim>\<open>self.cap.read()\<close> (\<open>None\<close> when \<^verbatim>\<open>ret\<close> is false), the clock
  (\<^verbatim>\<open>time.time()\<close>, seconds since the epoch, and the text of \<^verbatim>\<open>time.ctime()\<close>), and
  what a delivery does if one is attempted. Clock values and areas are real numbers: the
  rounding of Python's floats is not modelled.
\<close>

record 'a cycle =
  cap_read :: "'a option"
  time_time :: real
  time_ctime :: string
  cycle_delivery :: delivery

datatype control = Continue | Break

definition run_cycle ::
  "config \<Rightarrow> ('a, 'b) cv2 \<Rightarrow> 'a cycle \<Rightarrow> ('a, 'b) detector \<Rightarrow> control \<times> ('a, 'b) detector" where
  "run_cycle cfg cv inp st =
     (case cap_read inp of
        None \<Rightarrow>
          (Break, st\<lparr>console := logger_log ERROR ''Error reading frame from camera'' (console st)\<rparr>)
      | Some frame \<Rightarrow>
          let st = st\<lparr>latest_frame := Some frame\<rparr>;
              (motion, st) = process_frame cv frame st;
              current_time = time_time inp
          in if motion \<and> current_time - last_sent st > SEND_INTERVAL
             then
               let st = st\<lparr>console := logger_log INFO ''Motion detected - preparing to send photo''
                                         (console st)\<rparr>;
                   st = send_photo cfg (time_ctime inp) (cycle_delivery inp) frame None st
               in (Continue, st\<lparr>last_sent := current_time\<rparr>)
             else (Continue, st))"

text \<open>The \<^verbatim>\<open>finally\<close> clause of \<^verbatim>\<open>run\<close>.\<close>

definition run_finally :: "('a, 'b) detector \<Rightarrow> ('a, 'b) detector" where
  "run_finally st =
     st\<lparr>cap_released := True,
        console := logger_log INFO ''Motion detector stopped'' (console st)\<rparr>"

text \<open>
  The loop runs for as long as the camera delivers; the list holds the passes that have
  taken place so far. After a failed read the loop is left and the later entries are
  never looked at.
\<close>

fun run_loop ::
  "config \<Rightarrow> ('a, 'b) cv2 \<Rightarrow> 'a cycle list \<Rightarrow> ('a, 'b) detector \<Rightarrow> ('a, 'b) detector" where
  "run_loop cfg cv [] st = st"
| "run_loop cfg cv (inp # inps) st =
     (case run_cycle cfg cv inp st of
        (Break, st) \<Rightarrow> run_finally st
      | (Continue, st) \<Rightarrow> run_loop cfg cv inps st)"

definition run ::
  "config \<Rightarrow> ('a, 'b) cv2 \<Rightarrow> 'a cycle list \<Rightarrow> ('a, 'b) detector \<Rightarrow> ('a, 'b) detector" where
  "run cfg cv inps st =
     run_loop cfg cv inps
       (st\<lparr>console := logger_log INFO ''Starting motion detector...'' (console st)\<rparr>)"

section \<open>The daily scheduler\<close>

text \<open>
  A naive \<^verbatim>\<open>datetime\<close>: the calendar day as its ordinal number and the time of day in
  microseconds since midnight. Python compares two of them by day first and time of day
  second. The calendar is taken to be unbounded: the last day that \<^verbatim>\<open>datetime\<close> can
  represent (in the year 9999) is not modelled.
\<close>

record datetime =
  date :: int
  tod :: nat

definition dt_time :: "nat \<Rightarrow> nat \<Rightarrow> nat" where
  "dt_time hour minute = (hour * 3600 + minute * 60) * 1000000"

definition DAILY_PHOTO_TIME :: nat where
  "DAILY_PHOTO_TIME = dt_time 14 0"

definition combine :: "int \<Rightarrow> nat \<Rightarrow> datetime" where
  "combine d t = \<lparr>date = d, tod = t\<rparr>"

definition dt_less :: "datetime \<Rightarrow> datetime \<Rightarrow> bool" where
  "dt_less a b = (date a < date b \<or> (date a = date b \<and> tod a < tod b))"

definition dt_ge :: "datetime \<Rightarrow> datetime \<Rightarrow> bool" where
  "dt_ge a b = (\<not> dt_less a b)"

definition add_days :: "datetime \<Rightarrow> int \<Rightarrow> datetime" where
  "add_days a n = a\<lparr>date := date a + n\<rparr>"

text \<open>The difference of two instants, a \<^verbatim>\<open>timedelta\<close>, in microseconds.\<close>

definition dt_diff :: "datetime \<Rightarrow> datetime \<Rightarrow> int" where
  "dt_diff a b = (date a - date b) * 86400000000 + (int (tod a) - int (tod b))"

text \<open>Lines 172 to 176: today's slot, or tomorrow's when today's has been reached.\<close>

definition next_scheduled :: "datetime \<Rightarrow> datetime" where
  "next_scheduled now =
     (let scheduled_datetime = combine (date now) DAILY_PHOTO_TIME
      in if dt_ge now scheduled_datetime then add_days scheduled_datetime 1
         else scheduled_datetime)"

text \<open>
  The renderings that the scheduler's messages need: \<^verbatim>\<open>strftime\<close> with seconds and
  with minutes, and \<^verbatim>\<open>%.1f\<close> of a duration (given in microseconds) in hours.
\<close>

record fmt =
  strftime_sec :: "datetime \<Rightarrow> string"
  strftime_min :: "datetime \<Rightarrow> string"
  fmt_hours :: "int \<Rightarrow> string"

text \<open>
  The first half of a pass of \<^verbatim>\<open>daily_photo_scheduler\<close>, up to the
  \<^verbatim>\<open>asyncio.sleep\<close>: the next fire instant, the length of the sleep in microseconds,
  and the detector with the message logged.
\<close>

definition scheduler_plan ::
  "fmt \<Rightarrow> datetime \<Rightarrow> ('a, 'b) detector \<Rightarrow> datetime \<times> int \<times> ('a, 'b) detector" where
  "scheduler_plan f now st =
     (let scheduled_datetime = next_scheduled now;
          seconds_until_scheduled = dt_diff scheduled_datetime now
      in (scheduled_datetime, seconds_until_scheduled,
          st\<lparr>console := logger_log INFO
                (''Next daily photo scheduled at: '' @ strftime_sec f scheduled_datetime
                 @ '' (in '' @ fmt_hours f seconds_until_scheduled @ '' hours)'')
                (console st)\<rparr>))"

text \<open>
  The second half, after the sleep. \<open>now\<close> is the \<^verbatim>\<open>datetime.now()\<close> of the caption;
  \<^verbatim>\<open>str(DAILY_PHOTO_TIME)\<close> is \<^verbatim>\<open>14:00:00\<close>.
\<close>

definition scheduler_fire ::
  "config \<Rightarrow> fmt \<Rightarrow> datetime \<Rightarrow> string \<Rightarrow> delivery \<Rightarrow> ('a, 'b) detector \<Rightarrow> ('a, 'b) detector" where
  "scheduler_fire cfg f now ctime outcome st =
     (case latest_frame st of
        Some frame \<Rightarrow>
          send_photo cfg ctime outcome frame
            (Some (''Daily photo at 14:00:00 ('' @ strftime_min f now @ '')''))
            (st\<lparr>console := logger_log INFO ''Sending scheduled daily photo'' (console st)\<rparr>)
      | None \<Rightarrow>
          st\<lparr>console := logger_log WARNING ''No frame available for daily photo'' (console st)\<rparr>)"

section \<open>Start-up\<close>

text \<open>
  \<^verbatim>\<open>MotionDetector.__init__\<close>. The token check comes first, then the bot is built
  (\<open>bot_raises\<close> is the exception its constructor raises, if any), and only then is the
  camera opened with \<^verbatim>\<open>cv2.VideoCapture(0)\<close>; \<open>isOpened\<close> is what the camera
  reports, \<open>bs\<close> the fresh background subtractor. Opening the camera and creating the
  subtractor are taken not to raise.
\<close>

definition str_bool :: "bool \<Rightarrow> string" where
  "str_bool b = (if b then ''True'' else ''False'')"

text \<open>The detector as \<^verbatim>\<open>__init__\<close> leaves it, with the six messages it logs.\<close>

definition fresh_detector :: "config \<Rightarrow> bool \<Rightarrow> 'b \<Rightarrow> log_record list \<Rightarrow> ('a, 'b) detector" where
  "fresh_detector cfg isOpened bs out =
     \<lparr>last_sent = 0, frame_count = 0, latest_frame = None, back_sub = bs,
      cap_released = False,
      console =
        logger_log INFO (''Bot initialized: ''
            @ str_bool (TELEGRAM_TOKEN cfg \<noteq> [] \<and> CHAT_ID cfg \<noteq> []))
         (logger_log INFO ''Daily photo time: 14:00''
         (logger_log INFO ''Send interval: 3 seconds''
         (logger_log INFO ''Min contour area: 5000''
         (logger_log INFO (''Camera status: '' @ str_bool isOpened)
         (logger_log INFO ''Motion detector initialized successfully'' out))))),
      send_attempts = []\<rparr>"






section \<open>The two tasks together\<close>

text \<open>
  \<^verbatim>\<open>asyncio.gather\<close> runs the capture loop and the scheduler on one thread; control
  changes hands only at an \<^verbatim>\<open>await\<close>. The scheduler writes no field of the detector and
  reads only \<open>latest_frame\<close>, so a pass of the capture loop is taken as one step. An
  event is a pass of the capture loop or one half of a pass of the scheduler; a pass of
  the capture loop after the loop has been left changes nothing.
\<close>

datatype 'a event =
  CaptureCycle "'a cycle"
| SchedulerPlan datetime
| SchedulerFire datetime string delivery

definition step ::
  "config \<Rightarrow> ('a, 'b) cv2 \<Rightarrow> fmt \<Rightarrow> 'a event \<Rightarrow> ('a, 'b) detector \<Rightarrow> ('a, 'b) detector" where
  "step cfg cv f ev st =
     (case ev of
        CaptureCycle inp \<Rightarrow> if cap_released st then st else run_loop cfg cv [inp] st
      | SchedulerPlan now \<Rightarrow> snd (snd (scheduler_plan f now st))
      | SchedulerFire now ctime outcome \<Rightarrow> scheduler_fire cfg f now ctime outcome st)"

fun exec ::
  "config \<Rightarrow> ('a, 'b) cv2 \<Rightarrow> fmt \<Rightarrow> 'a event list \<Rightarrow> ('a, 'b) detector \<Rightarrow> ('a, 'b) detector" where
  "exec cfg cv f [] st = st"
| "exec cfg cv f (ev # evs) st = exec cfg cv f evs (step cfg cv f ev st)"

section \<open>Interrupts\<close>






section \<open>A small camera for worked examples\<close>

text \<open>
  A frame is the list of the areas of the regions it shows. Converting an empty frame
  fails; every other routine succeeds, and the contours found are the regions.
\<close>

definition example_cv :: "(nat list, unit) cv2" where
  "example_cv =
     \<lparr>cvtColor = (\<lambda>frame. if frame = [] then Inl (Exception ''empty frame'') else Inr frame),
      GaussianBlur = Inr,
      back_sub_apply = (\<lambda>bs gray. (bs, Inr gray)),
      getStructuringElement = Inr [],
      morphologyEx = (\<lambda>mask op k. Inr mask),
      findContours = (\<lambda>mask. Inr (map (\<lambda>a. [a]) mask)),
      contourArea = (\<lambda>contour. Inr (real (sum_list contour))),
      str_area = (\<lambda>area. [])\<rparr>"

definition example_cfg :: config where
  "example_cfg = \<lparr>TELEGRAM_TOKEN = ''123456:ABCDEF'', CHAT_ID = ''987654321''\<rparr>"

definition example_detector :: "(nat list, unit) detector" where
  "example_detector = fresh_detector example_cfg True () []"

definition example_fmt :: fmt where
  "example_fmt = \<lparr>strftime_sec = (\<lambda>d. []), strftime_min = (\<lambda>d. []), fmt_hours = (\<lambda>n. [])\<rparr>"

definition example_cycle :: "nat list \<Rightarrow> real \<Rightarrow> delivery \<Rightarrow> nat list cycle" where
  "example_cycle frame t outcome =
     \<lparr>cap_read = Some frame, time_time = t, time_ctime = ''now'', cycle_delivery = outcome\<rparr>"

section \<open>Failure of an analysis step\<close>

text \<open>
  The specification speaks of an internal analysis step failing. Said step by step:
  one of the routines raises \<open>e\<close> while all those before it have returned; for
  \<^verbatim>\<open>contourArea\<close>, the contours before the failing one have all been measured and
  found not to exceed the threshold, so the loop reaches it.
\<close>

inductive analysis_fails :: "('a, 'b) cv2 \<Rightarrow> 'b \<Rightarrow> 'a \<Rightarrow> exn \<Rightarrow> bool" where
  in_cvtColor:
    "cvtColor cv frame = Inl e \<Longrightarrow> analysis_fails cv bs frame e"
| in_GaussianBlur:
    "cvtColor cv frame = Inr g \<Longrightarrow> GaussianBlur cv g = Inl e \<Longrightarrow> analysis_fails cv bs frame e"
| in_apply:
    "cvtColor cv frame = Inr g \<Longrightarrow> GaussianBlur cv g = Inr g' \<Longrightarrow>
     snd (back_sub_apply cv bs g') = Inl e \<Longrightarrow> analysis_fails cv bs frame e"
| in_getStructuringElement:
    "cvtColor cv frame = Inr g \<Longrightarrow> GaussianBlur cv g = Inr g' \<Longrightarrow>
     snd (back_sub_apply cv bs g') = Inr m \<Longrightarrow> getStructuringElement cv = Inl e \<Longrightarrow>
     analysis_fails cv bs frame e"
| in_close:
    "cvtColor cv frame = Inr g \<Longrightarrow> GaussianBlur cv g = Inr g' \<Longrightarrow>
     snd (back_sub_apply cv bs g') = Inr m \<Longrightarrow> getStructuringElement cv = Inr k \<Longrightarrow>
     morphologyEx cv m MORPH_CLOSE k = Inl e \<Longrightarrow> analysis_fails cv bs frame e"
| in_open:
    "cvtColor cv frame = Inr g \<Longrightarrow> GaussianBlur cv g = Inr g' \<Longrightarrow>
     snd (back_sub_apply cv bs g') = Inr m \<Longrightarrow> getStructuringElement cv = Inr k \<Longrightarrow>
     morphologyEx cv m MORPH_CLOSE k = Inr m' \<Longrightarrow> morphologyEx cv m' MORPH_OPEN k = Inl e \<Longrightarrow>
     analysis_fails cv bs frame e"
| in_findContours:
    "cvtColor cv frame = Inr g \<Longrightarrow> GaussianBlur cv g = Inr g' \<Longrightarrow>
     snd (back_sub_apply cv bs g') = Inr m \<Longrightarrow> getStructuringElement cv = Inr k \<Longrightarrow>
     morphologyEx cv m MORPH_CLOSE k = Inr m' \<Longrightarrow> morphologyEx cv m' MORPH_OPEN k = Inr m'' \<Longrightarrow>
     findContours cv m'' = Inl e \<Longrightarrow> analysis_fails cv bs frame e"
| in_contourArea:
    "cvtColor cv frame = Inr g \<Longrightarrow> GaussianBlur cv g = Inr g' \<Longrightarrow>
     snd (back_sub_apply cv bs g') = Inr m \<Longrightarrow> getStructuringElement cv = Inr k \<Longrightarrow>
     morphologyEx cv m MORPH_CLOSE k = Inr m' \<Longrightarrow> morphologyEx cv m' MORPH_OPEN k = Inr m'' \<Longrightarrow>
     findContours cv m'' = Inr (before @ contour # after) \<Longrightarrow>
     \<forall>c \<in> set before. \<exists>a. contourArea cv c = Inr a \<and> \<not> a > MIN_CONTOUR_AREA \<Longrightarrow>
     contourArea cv contour = Inl e \<Longrightarrow> analysis_fails cv bs frame e"

code_pred analysis_fails .

section \<open>The frames that have been captured\<close>

text \<open>
  The frames that the camera has delivered in the course of a run, oldest first: those
  read before the first failed read, which ends the capture loop.
\<close>

fun captured :: "'a event list \<Rightarrow> 'a list" where
  "captured [] = []"
| "captured (CaptureCycle inp # evs) =
     (case cap_read inp of None \<Rightarrow> [] | Some frame \<Rightarrow> frame # captured evs)"
| "captured (SchedulerPlan now # evs) = captured evs"
| "captured (SchedulerFire now ctime outcome # evs) = captured evs"

section \<open>Properties\<close>

subsection \<open>What each operation leaves alone\<close>

lemma contour_loop_fields:
  "last_sent (snd (contour_loop cv cs st)) = last_sent st"
  "send_attempts (snd (contour_loop cv cs st)) = send_attempts st"
  "latest_frame (snd (contour_loop cv cs st)) = latest_frame st"
  "cap_released (snd (contour_loop cv cs st)) = cap_released st"
  "console (snd (contour_loop cv cs st)) = console st"
  by (induction cs) (auto simp: logger_log_def split: sum.splits)

lemma process_frame_try_fields:
  "last_sent (snd (process_frame_try cv frame st)) = last_sent st"
  "send_attempts (snd (process_frame_try cv frame st)) = send_attempts st"
  "latest_frame (snd (process_frame_try cv frame st)) = latest_frame st"
  "cap_released (snd (process_frame_try cv frame st)) = cap_released st"
  "console (snd (process_frame_try cv frame st)) = console st"
  by (auto simp: process_frame_try_def contour_loop_fields Let_def split: sum.splits prod.splits)

lemma process_frame_fields:
  "last_sent (snd (process_frame cv frame st)) = last_sent st"
  "send_attempts (snd (process_frame cv frame st)) = send_attempts st"
  "latest_frame (snd (process_frame cv frame st)) = latest_frame st"
  "cap_released (snd (process_frame cv frame st)) = cap_released st"
  using process_frame_try_fields [of cv frame st]
  by (auto simp: process_frame_def split: sum.splits prod.splits)

lemma send_photo_fields:
  "last_sent (send_photo cfg ctime outcome frame caption st) = last_sent st"
  "latest_frame (send_photo cfg ctime outcome frame caption st) = latest_frame st"
  "cap_released (send_photo cfg ctime outcome frame caption st) = cap_released st"
  "send_attempts (send_photo cfg ctime outcome frame caption st)
     = send_attempts st @ [(frame, caption_or_default caption ctime)]"
  by (auto simp: send_photo_def Let_def split: delivery.splits exn.splits)

lemma run_cycle_Some:
  assumes "cap_read inp = Some frame"
  shows "run_cycle cfg cv inp st =
     (let r = process_frame cv frame (st\<lparr>latest_frame := Some frame\<rparr>) in
      if fst r \<and> time_time inp - last_sent st > SEND_INTERVAL
      then (Continue,
            (send_photo cfg (time_ctime inp) (cycle_delivery inp) frame None
               ((snd r)\<lparr>console := logger_log INFO ''Motion detected - preparing to send photo''
                                         (console (snd r))\<rparr>))\<lparr>last_sent := time_time inp\<rparr>)
      else (Continue, snd r))"
proof -
  obtain m st' where r: "process_frame cv frame (st\<lparr>latest_frame := Some frame\<rparr>) = (m, st')"
    by (cases "process_frame cv frame (st\<lparr>latest_frame := Some frame\<rparr>)")
  have "last_sent st' = last_sent st"
    using process_frame_fields(1) [of cv frame "st\<lparr>latest_frame := Some frame\<rparr>"] r by simp
  then show ?thesis
    using assms r by (simp add: run_cycle_def Let_def)
qed

lemma run_cycle_None:
  "cap_read inp = None \<Longrightarrow>
   run_cycle cfg cv inp st =
     (Break, st\<lparr>console := logger_log ERROR ''Error reading frame from camera'' (console st)\<rparr>)"
  by (simp add: run_cycle_def)

lemma run_cycle_no_attempt:
  "\<not> (time_time inp - last_sent st > SEND_INTERVAL) \<Longrightarrow>
   send_attempts (snd (run_cycle cfg cv inp st)) = send_attempts st
   \<and> last_sent (snd (run_cycle cfg cv inp st)) = last_sent st"
  by (cases "cap_read inp")
     (simp_all add: run_cycle_None run_cycle_Some Let_def process_frame_fields)

lemma scheduler_fields:
  "last_sent (snd (snd (scheduler_plan f now st))) = last_sent st"
  "send_attempts (snd (snd (scheduler_plan f now st))) = send_attempts st"
  "latest_frame (snd (snd (scheduler_plan f now st))) = latest_frame st"
  "cap_released (snd (snd (scheduler_plan f now st))) = cap_released st"
  "last_sent (scheduler_fire cfg f now ctime outcome st) = last_sent st"
  "latest_frame (scheduler_fire cfg f now ctime outcome st) = latest_frame st"
  "cap_released (scheduler_fire cfg f now ctime outcome st) = cap_released st"
  by (auto simp: scheduler_plan_def scheduler_fire_def Let_def send_photo_fields
           split: option.splits)

lemmas example_simps = example_cfg_def example_cv_def example_detector_def example_cycle_def fresh_detector_def
  run_cycle_def process_frame_def process_frame_try_def logger_log_def send_photo_def caption_or_default_def
  MIN_CONTOUR_AREA_def SEND_INTERVAL_def

subsection \<open>The rate limiter\<close>

text \<open>
  Claim C1: \<open>last_sent\<close> starts at 0, and in a pass with motion a send is attempted if
  and only if the clock minus \<open>last_sent\<close> exceeds \<open>SEND_INTERVAL\<close> (3 seconds). The
  clock is \<^verbatim>\<open>time.time()\<close>, seconds since 1970, and so lies past \<open>SEND_INTERVAL\<close>; then
  the value 0 stands for "never": a send is attempted if and only if the interval has
  elapsed or nothing has been sent yet. With motion at 0, 1, 2 and 4 seconds after any such
  start of the clock, the first and the fourth frame are sent and the two between are not.
\<close>

theorem send_gate_from_epoch:
  "last_sent (fresh_detector cfg isOpened bs out) = 0
   \<and> (cap_read inp = Some frame \<and> fst (process_frame cv frame (st\<lparr>latest_frame := Some frame\<rparr>))
        \<longrightarrow> (send_attempts (snd (run_cycle cfg cv inp st)) \<noteq> send_attempts st)
             = (time_time inp - last_sent st > SEND_INTERVAL))
   \<and> (cap_read inp = Some frame \<and> fst (process_frame cv frame (st\<lparr>latest_frame := Some frame\<rparr>))
        \<and> SEND_INTERVAL < time_time inp
        \<longrightarrow> (send_attempts (snd (run_cycle cfg cv inp st)) \<noteq> send_attempts st)
             = (time_time inp - last_sent st > SEND_INTERVAL \<or> last_sent st = 0))
   \<and> (SEND_INTERVAL < t \<longrightarrow>
        map fst (send_attempts (run_loop example_cfg example_cv
          [example_cycle [5001, 1] (t + 0) Delivered, example_cycle [5001, 2] (t + 1) Delivered,
           example_cycle [5001, 3] (t + 2) Delivered, example_cycle [5001, 4] (t + 4) Delivered]
          example_detector)) = [[5001, 1], [5001, 4]])"
proof -
  have init: "last_sent (fresh_detector cfg isOpened bs out) = 0"
    by (simp add: fresh_detector_def)
  have gate: "(send_attempts (snd (run_cycle cfg cv inp st)) \<noteq> send_attempts st)
             = (time_time inp - last_sent st > SEND_INTERVAL)"
    if "cap_read inp = Some frame"
      and "fst (process_frame cv frame (st\<lparr>latest_frame := Some frame\<rparr>))"
    using that
    by (simp add: run_cycle_Some Let_def send_photo_fields process_frame_fields)
  have never: "(send_attempts (snd (run_cycle cfg cv inp st)) \<noteq> send_attempts st)
             = (time_time inp - last_sent st > SEND_INTERVAL \<or> last_sent st = 0)"
    if "cap_read inp = Some frame"
      and "fst (process_frame cv frame (st\<lparr>latest_frame := Some frame\<rparr>))"
      and "SEND_INTERVAL < time_time inp"
    using gate [OF that(1,2)] that(3) by auto
  have trace: "map fst (send_attempts (run_loop example_cfg example_cv
          [example_cycle [5001, 1] (t + 0) Delivered, example_cycle [5001, 2] (t + 1) Delivered,
           example_cycle [5001, 3] (t + 2) Delivered, example_cycle [5001, 4] (t + 4) Delivered]
          example_detector)) = [[5001, 1], [5001, 4]]"
    if "SEND_INTERVAL < t"
    using that by (simp add: example_simps)
  from init gate never trace show ?thesis by blast
qed

theorem send_gate_from_epoch_witness:
  "(send_attempts (snd (run_cycle example_cfg example_cv (example_cycle [5001] 10 Delivered)
       example_detector)) \<noteq> send_attempts example_detector)
   \<and> map fst (send_attempts (run_loop example_cfg example_cv
          [example_cycle [5001, 1] (1730000000 + 0) Delivered,
           example_cycle [5001, 2] (1730000000 + 1) Delivered,
           example_cycle [5001, 3] (1730000000 + 2) Delivered,
           example_cycle [5001, 4] (1730000000 + 4) Delivered]
          example_detector)) = [[5001, 1], [5001, 4]]"
proof -
  have a: "cap_read (example_cycle [5001] 10 Delivered) = Some [5001]"
    by (simp add: example_cycle_def)
  have b: "fst (process_frame example_cv [5001] (example_detector\<lparr>latest_frame := Some [5001]\<rparr>))"
    by (simp add: example_simps)
  have c: "SEND_INTERVAL < time_time (example_cycle [5001] 10 Delivered)"
    by (simp add: example_cycle_def SEND_INTERVAL_def)
  have d: "last_sent example_detector = 0"
    by (simp add: example_detector_def fresh_detector_def)
  have e: "SEND_INTERVAL < 1730000000"
    by (simp add: SEND_INTERVAL_def)
  note t = send_gate_from_epoch [of example_cfg True "()" "[]" "example_cycle [5001] 10 Delivered" "[5001]"
                 example_cv example_detector 1730000000]
  have first: "send_attempts (snd (run_cycle example_cfg example_cv
       (example_cycle [5001] 10 Delivered) example_detector)) \<noteq> send_attempts example_detector"
    using t a b c d by blast
  have trace: "map fst (send_attempts (run_loop example_cfg example_cv
          [example_cycle [5001, 1] (1730000000 + 0) Delivered,
           example_cycle [5001, 2] (1730000000 + 1) Delivered,
           example_cycle [5001, 3] (1730000000 + 2) Delivered,
           example_cycle [5001, 4] (1730000000 + 4) Delivered]
          example_detector)) = [[5001, 1], [5001, 4]]"
    using t e by blast
  from first trace show ?thesis by blast
qed

text \<open>
  Claim C5: when a pass of the capture loop attempts a notification (motion, and the
  cooldown has elapsed), \<open>last_sent\<close> becomes the clock value of that pass whatever the
  delivery does, one call of \<^verbatim>\<open>send_photo\<close> is made, and no pass whose clock lies within
  \<open>SEND_INTERVAL\<close> of it attempts another.
\<close>

theorem failed_send_consumes_cooldown:
  assumes "cap_read inp = Some frame"
    and "fst (process_frame cv frame (st\<lparr>latest_frame := Some frame\<rparr>))"
    and "time_time inp - last_sent st > SEND_INTERVAL"
  shows "last_sent (snd (run_cycle cfg cv (inp\<lparr>cycle_delivery := outcome\<rparr>) st)) = time_time inp
    \<and> send_attempts (snd (run_cycle cfg cv (inp\<lparr>cycle_delivery := outcome\<rparr>) st))
        = send_attempts st @ [(frame, caption_or_default None (time_ctime inp))]
    \<and> (time_time inp2 - time_time inp \<le> SEND_INTERVAL \<longrightarrow>
        send_attempts (snd (run_cycle cfg cv inp2
            (snd (run_cycle cfg cv (inp\<lparr>cycle_delivery := outcome\<rparr>) st))))
        = send_attempts (snd (run_cycle cfg cv (inp\<lparr>cycle_delivery := outcome\<rparr>) st)))"
proof -
  let ?st' = "snd (run_cycle cfg cv (inp\<lparr>cycle_delivery := outcome\<rparr>) st)"
  have read: "cap_read (inp\<lparr>cycle_delivery := outcome\<rparr>) = Some frame"
    using assms(1) by simp
  have stamp: "last_sent ?st' = time_time inp"
    using assms(2,3) by (simp add: run_cycle_Some [OF read] Let_def)
  have sent: "send_attempts ?st'
      = send_attempts st @ [(frame, caption_or_default None (time_ctime inp))]"
    using assms(2,3)
    by (simp add: run_cycle_Some [OF read] Let_def send_photo_fields process_frame_fields)
  have quiet: "send_attempts (snd (run_cycle cfg cv inp2 ?st')) = send_attempts ?st'"
    if "time_time inp2 - time_time inp \<le> SEND_INTERVAL"
    using that run_cycle_no_attempt [of inp2 ?st' cfg cv] stamp by simp
  from stamp sent quiet show ?thesis by blast
qed

theorem failed_send_consumes_cooldown_witness:
  "last_sent (snd (run_cycle example_cfg example_cv
       ((example_cycle [5001] 10 Delivered)\<lparr>cycle_delivery := Raised (TelegramError ''Timed out'')\<rparr>)
       example_detector)) = 10
   \<and> map fst (send_attempts (snd (run_cycle example_cfg example_cv
       (example_cycle [5001] 13 Delivered)
       (snd (run_cycle example_cfg example_cv
         ((example_cycle [5001] 10 Delivered)\<lparr>cycle_delivery := Raised (TelegramError ''Timed out'')\<rparr>)
         example_detector))))) = [[5001]]"
proof -
  have a: "cap_read (example_cycle [5001] 10 Delivered) = Some [5001]"
    by (simp add: example_cycle_def)
  have b: "fst (process_frame example_cv [5001] (example_detector\<lparr>latest_frame := Some [5001]\<rparr>))"
    by (simp add: example_simps)
  have c: "time_time (example_cycle [5001] 10 Delivered) - last_sent example_detector > SEND_INTERVAL"
    by (simp add: example_simps)
  have d: "time_time (example_cycle [5001] 13 Delivered) - time_time (example_cycle [5001] 10 Delivered)
      \<le> SEND_INTERVAL"
    by (simp add: example_cycle_def SEND_INTERVAL_def)
  have e: "send_attempts example_detector = []"
    by (simp add: example_detector_def fresh_detector_def)
  have f: "time_time (example_cycle [5001] 10 Delivered) = 10"
    by (simp add: example_cycle_def)
  show ?thesis
    using failed_send_consumes_cooldown [OF a b c, of example_cfg "Raised (TelegramError ''Timed out'')"
                "example_cycle [5001] 13 Delivered"] d e f
    by simp
qed

text \<open>
  Claim C10: a pass of the capture loop that attempts no notification (no motion, or the
  cooldown has not elapsed, or the read failed) leaves \<open>last_sent\<close> as it was; so does
  either half of a pass of the scheduler; and whatever step the process takes, if it made
  no call of \<^verbatim>\<open>send_photo\<close> then \<open>last_sent\<close> is unchanged.
\<close>

theorem last_sent_frame_condition:
  "(cap_read inp = Some frame
      \<and> \<not> (fst (process_frame cv frame (st\<lparr>latest_frame := Some frame\<rparr>))
            \<and> time_time inp - last_sent st > SEND_INTERVAL)
      \<longrightarrow> last_sent (snd (run_cycle cfg cv inp st)) = last_sent st
          \<and> send_attempts (snd (run_cycle cfg cv inp st)) = send_attempts st)
   \<and> (cap_read inp = None \<longrightarrow> last_sent (snd (run_cycle cfg cv inp st)) = last_sent st)
   \<and> last_sent (snd (snd (scheduler_plan f now st))) = last_sent st
   \<and> last_sent (scheduler_fire cfg f now ctime outcome st) = last_sent st
   \<and> (send_attempts (step cfg cv f ev st) = send_attempts st
        \<longrightarrow> last_sent (step cfg cv f ev st) = last_sent st)"
proof -
  have idle: "last_sent (snd (run_cycle cfg cv inp st)) = last_sent st
          \<and> send_attempts (snd (run_cycle cfg cv inp st)) = send_attempts st"
    if "cap_read inp = Some frame"
      and "\<not> (fst (process_frame cv frame (st\<lparr>latest_frame := Some frame\<rparr>))
            \<and> time_time inp - last_sent st > SEND_INTERVAL)"
    using that by (auto simp: run_cycle_Some Let_def process_frame_fields)
  have failed: "last_sent (snd (run_cycle cfg cv inp st)) = last_sent st" if "cap_read inp = None"
    using that by (simp add: run_cycle_None)
  have any: "last_sent (step cfg cv f ev st) = last_sent st"
    if same: "send_attempts (step cfg cv f ev st) = send_attempts st"
  proof (cases ev)
    case (CaptureCycle i)
    show ?thesis
    proof (cases "cap_read i")
      case None
      then show ?thesis
        using CaptureCycle by (simp add: step_def run_cycle_None run_finally_def)
    next
      case (Some fr)
      then show ?thesis
        using CaptureCycle same
        by (auto simp: step_def run_cycle_Some Let_def process_frame_fields send_photo_fields
                 split: if_splits)
    qed
  next
    case (SchedulerPlan n)
    then show ?thesis by (simp add: step_def scheduler_fields)
  next
    case (SchedulerFire n c d)
    then show ?thesis by (simp add: step_def scheduler_fields)
  qed
  from idle failed any show ?thesis
    by (simp add: scheduler_fields)
qed

theorem last_sent_frame_condition_witness:
  "last_sent (snd (run_cycle example_cfg example_cv (example_cycle [40] 10 Delivered)
      example_detector)) = last_sent example_detector
   \<and> send_attempts (snd (run_cycle example_cfg example_cv (example_cycle [40] 10 Delivered)
      example_detector)) = send_attempts example_detector
   \<and> last_sent (step example_cfg example_cv example_fmt (CaptureCycle (example_cycle [40] 10 Delivered))
      example_detector) = last_sent example_detector"
proof -
  have a: "cap_read (example_cycle [40] 10 Delivered) = Some [40]"
    by (simp add: example_cycle_def)
  have b: "\<not> fst (process_frame example_cv [40] (example_detector\<lparr>latest_frame := Some [40]\<rparr>))"
    by (simp add: example_simps)
  have c: "send_attempts (step example_cfg example_cv example_fmt (CaptureCycle (example_cycle [40] 10 Delivered))
      example_detector) = send_attempts example_detector"
    by (simp add: step_def example_simps)
  show ?thesis
    using last_sent_frame_condition [of "example_cycle [40] 10 Delivered" "[40]" example_cv
        example_detector example_cfg example_fmt "\<lparr>date = 0, tod = 0\<rparr>" "[]" Delivered
        "CaptureCycle (example_cycle [40] 10 Delivered)"] a b c
    by blast
qed

subsection \<open>The motion pipeline\<close>

lemma contour_loop_areas:
  "\<forall>c \<in> set contours. contourArea cv c = Inr (area c) \<Longrightarrow>
   fst (contour_loop cv contours st) = Inr (\<exists>c \<in> set contours. area c > MIN_CONTOUR_AREA)"
  by (induction contours) auto

lemma contour_loop_raises:
  "\<forall>c \<in> set before. \<exists>a. contourArea cv c = Inr a \<and> \<not> a > MIN_CONTOUR_AREA \<Longrightarrow>
   contourArea cv contour = Inl e \<Longrightarrow>
   fst (contour_loop cv (before @ contour # after) st) = Inl e"
  by (induction before) auto

lemma analysis_fails_try:
  "analysis_fails cv (back_sub st) frame e \<Longrightarrow> fst (process_frame_try cv frame st) = Inl e"
  by (induction rule: analysis_fails.cases)
     (auto simp: process_frame_try_def Let_def contour_loop_raises split: prod.splits)


lemma contour_loop_Inl:
  "fst (contour_loop cv contours st) = Inl e \<Longrightarrow>
   \<exists>before contour after. contours = before @ contour # after
     \<and> (\<forall>c \<in> set before. \<exists>a. contourArea cv c = Inr a \<and> \<not> a > MIN_CONTOUR_AREA)
     \<and> contourArea cv contour = Inl e"
proof (induction contours)
  case Nil
  then show ?case by simp
next
  case (Cons c cs)
  show ?case
  proof (cases "contourArea cv c")
    case (Inl e')
    then have "e' = e" using Cons.prems by simp
    then have "c # cs = [] @ c # cs \<and> (\<forall>c \<in> set []. \<exists>a. contourArea cv c = Inr a \<and> \<not> a > MIN_CONTOUR_AREA)
       \<and> contourArea cv c = Inl e" using Inl by simp
    then show ?thesis by blast
  next
    case (Inr a)
    then have small: "\<not> a > MIN_CONTOUR_AREA" and "fst (contour_loop cv cs st) = Inl e"
      using Cons.prems by (auto split: if_splits)
    then obtain before contour after where
      "cs = before @ contour # after"
      "\<forall>c \<in> set before. \<exists>a. contourArea cv c = Inr a \<and> \<not> a > MIN_CONTOUR_AREA"
      "contourArea cv contour = Inl e"
      using Cons.IH by blast
    then have "c # cs = (c # before) @ contour # after
       \<and> (\<forall>x \<in> set (c # before). \<exists>a. contourArea cv x = Inr a \<and> \<not> a > MIN_CONTOUR_AREA)
       \<and> contourArea cv contour = Inl e"
      using Inr small by simp
    then show ?thesis by blast
  qed
qed

lemma try_analysis_fails:
  assumes "fst (process_frame_try cv frame st) = Inl e"
  shows "analysis_fails cv (back_sub st) frame e"
proof (cases "cvtColor cv frame")
  case (Inl e1)
  then show ?thesis using assms by (auto simp: process_frame_try_def intro: in_cvtColor)
next
  case g: (Inr g)
  show ?thesis
  proof (cases "GaussianBlur cv g")
    case (Inl e2)
    then show ?thesis using assms g by (auto simp: process_frame_try_def intro: in_GaussianBlur)
  next
    case g': (Inr g')
    show ?thesis
    proof (cases "snd (back_sub_apply cv (back_sub st) g')")
      case (Inl e3)
      then show ?thesis using assms g g'
        by (auto simp: process_frame_try_def Let_def split: prod.splits intro: in_apply)
    next
      case m: (Inr m)
      show ?thesis
      proof (cases "getStructuringElement cv")
        case (Inl e4)
        then show ?thesis using assms g g' m
          by (auto simp: process_frame_try_def Let_def split: prod.splits
                   intro: in_getStructuringElement)
      next
        case k: (Inr k)
        show ?thesis
        proof (cases "morphologyEx cv m MORPH_CLOSE k")
          case (Inl e5)
          then show ?thesis using assms g g' m k
            by (auto simp: process_frame_try_def Let_def split: prod.splits intro: in_close)
        next
          case m': (Inr m')
          show ?thesis
          proof (cases "morphologyEx cv m' MORPH_OPEN k")
            case (Inl e6)
            then show ?thesis using assms g g' m k m'
              by (auto simp: process_frame_try_def Let_def split: prod.splits intro: in_open)
          next
            case m'': (Inr m'')
            show ?thesis
            proof (cases "findContours cv m''")
              case (Inl e7)
              then show ?thesis using assms g g' m k m' m''
                by (auto simp: process_frame_try_def Let_def split: prod.splits
                         intro: in_findContours)
            next
              case cs: (Inr cs)
              have "fst (contour_loop cv cs (st\<lparr>back_sub := fst (back_sub_apply cv (back_sub st) g')\<rparr>))
                      = Inl e"
                using assms g g' m k m' m'' cs
                by (auto simp: process_frame_try_def Let_def split: prod.splits)
              from contour_loop_Inl [OF this] obtain before contour after where
                "cs = before @ contour # after"
                "\<forall>c \<in> set before. \<exists>a. contourArea cv c = Inr a \<and> \<not> a > MIN_CONTOUR_AREA"
                "contourArea cv contour = Inl e"
                by blast
              then show ?thesis
                using in_contourArea [OF g g' m k m' m'', of before contour after e] cs by simp
            qed
          qed
        qed
      qed
    qed
  qed
qed

text \<open>
  Claim C2: when the routines of the pipeline have run through and found the contours,
  \<^verbatim>\<open>process_frame\<close> reports motion if and only if some contour has an area strictly
  greater than \<open>MIN_CONTOUR_AREA\<close> (5000). A frame whose largest contour has area
  exactly the threshold plus one gives true, one whose largest has exactly the threshold
  gives false.
\<close>

theorem motion_iff_region_exceeds_threshold:
  assumes "cvtColor cv frame = Inr g"
    and "GaussianBlur cv g = Inr g'"
    and "snd (back_sub_apply cv (back_sub st) g') = Inr m"
    and "getStructuringElement cv = Inr k"
    and "morphologyEx cv m MORPH_CLOSE k = Inr m'"
    and "morphologyEx cv m' MORPH_OPEN k = Inr m''"
    and "findContours cv m'' = Inr contours"
    and "\<forall>c \<in> set contours. contourArea cv c = Inr (area c)"
  shows "fst (process_frame cv frame st) = (\<exists>c \<in> set contours. area c > MIN_CONTOUR_AREA)
    \<and> (contours \<noteq> [] \<and> Max (area ` set contours) = MIN_CONTOUR_AREA + 1
         \<longrightarrow> fst (process_frame cv frame st))
    \<and> (contours \<noteq> [] \<and> Max (area ` set contours) = MIN_CONTOUR_AREA
         \<longrightarrow> \<not> fst (process_frame cv frame st))"
proof -
  obtain bs where bs: "back_sub_apply cv (back_sub st) g' = (bs, Inr m)"
    using assms(3) by (cases "back_sub_apply cv (back_sub st) g'") simp
  have "fst (process_frame_try cv frame st) = fst (contour_loop cv contours (st\<lparr>back_sub := bs\<rparr>))"
    using assms(1,2,4-7) bs by (simp add: process_frame_try_def)
  then have "fst (process_frame_try cv frame st)
      = Inr (\<exists>c \<in> set contours. area c > MIN_CONTOUR_AREA)"
    using contour_loop_areas [OF assms(8)] by simp
  then have iff: "fst (process_frame cv frame st) = (\<exists>c \<in> set contours. area c > MIN_CONTOUR_AREA)"
    by (cases "process_frame_try cv frame st") (simp add: process_frame_def)
  have above: "\<exists>c \<in> set contours. area c > MIN_CONTOUR_AREA"
    if ne: "contours \<noteq> []" and mx: "Max (area ` set contours) = MIN_CONTOUR_AREA + 1"
  proof -
    have "Max (area ` set contours) \<in> area ` set contours"
      using ne by (intro Max_in) simp_all
    then obtain c where "c \<in> set contours" and "area c = MIN_CONTOUR_AREA + 1"
      using mx by auto
    moreover from this have "area c > MIN_CONTOUR_AREA" by simp
    ultimately show ?thesis by blast
  qed
  have at: "\<not> (\<exists>c \<in> set contours. area c > MIN_CONTOUR_AREA)"
    if ne: "contours \<noteq> []" and mx: "Max (area ` set contours) = MIN_CONTOUR_AREA"
  proof
    assume "\<exists>c \<in> set contours. area c > MIN_CONTOUR_AREA"
    then obtain c where c: "c \<in> set contours" "area c > MIN_CONTOUR_AREA" by blast
    then have "area c \<le> Max (area ` set contours)" by (intro Max_ge) simp_all
    then show False using c(2) mx by simp
  qed
  from iff above at show ?thesis by blast
qed

theorem motion_iff_region_exceeds_threshold_witness:
  "fst (process_frame example_cv [120, 5001, 30] example_detector)
   \<and> \<not> fst (process_frame example_cv [120, 5000, 30] example_detector)"
proof -
  have areas: "\<forall>c \<in> set (map (\<lambda>a. [a]) fr). contourArea example_cv c = Inr ((\<lambda>c. real (sum_list c)) c)"
    for fr :: "nat list"
    by (simp add: example_cv_def)
  have hi: "fst (process_frame example_cv [120, 5001, 30] example_detector)"
    using motion_iff_region_exceeds_threshold [of example_cv "[120, 5001, 30]" "[120, 5001, 30]" "[120, 5001, 30]"
                 example_detector "[120, 5001, 30]" "[]" "[120, 5001, 30]" "[120, 5001, 30]"
                 "map (\<lambda>a. [a]) [120, 5001, 30]" "\<lambda>c. real (sum_list c)"]
    by (simp add: example_cv_def MIN_CONTOUR_AREA_def)
  have lo: "\<not> fst (process_frame example_cv [120, 5000, 30] example_detector)"
    using motion_iff_region_exceeds_threshold [of example_cv "[120, 5000, 30]" "[120, 5000, 30]" "[120, 5000, 30]"
                 example_detector "[120, 5000, 30]" "[]" "[120, 5000, 30]" "[120, 5000, 30]"
                 "map (\<lambda>a. [a]) [120, 5000, 30]" "\<lambda>c. real (sum_list c)"]
    by (simp add: example_cv_def MIN_CONTOUR_AREA_def)
  from hi lo show ?thesis by blast
qed

text \<open>
  Claim C3: \<^verbatim>\<open>process_frame\<close> returns a truth value for every frame. When a step of the
  analysis fails with \<open>e\<close>, it returns false and logs one error that carries the text of
  \<open>e\<close>. A pass of the capture loop that has read a frame never leaves the loop: the
  next pass follows, and after a failed analysis no notification has been attempted.
\<close>

theorem analysis_failure_is_no_motion:
  "(analysis_fails cv (back_sub st) frame e \<longrightarrow>
      fst (process_frame cv frame st) = False
      \<and> console (snd (process_frame cv frame st))
          = console st @ [\<lparr>levelname = ERROR, message = ''Error processing frame: '' @ str_exn e\<rparr>])
   \<and> (cap_read inp = Some frame \<longrightarrow>
        fst (run_cycle cfg cv inp st) = Continue
        \<and> run_loop cfg cv (inp # rest) st = run_loop cfg cv rest (snd (run_cycle cfg cv inp st)))
   \<and> (cap_read inp = Some frame \<and> analysis_fails cv (back_sub st) frame e \<longrightarrow>
        send_attempts (snd (run_cycle cfg cv inp st)) = send_attempts st
        \<and> console (snd (run_cycle cfg cv inp st))
          = console st @ [\<lparr>levelname = ERROR, message = ''Error processing frame: '' @ str_exn e\<rparr>])"
proof -
  have handler: "fst (process_frame cv frame s) = False
      \<and> console (snd (process_frame cv frame s))
          = console s @ [\<lparr>levelname = ERROR, message = ''Error processing frame: '' @ str_exn e\<rparr>]"
    if fails: "analysis_fails cv (back_sub s) frame e" for s :: "('a, 'b) detector"
  proof -
    obtain s' where "process_frame_try cv frame s = (Inl e, s')"
      using analysis_fails_try [OF fails] by (cases "process_frame_try cv frame s") simp
    moreover from this have "console s' = console s"
      using process_frame_try_fields(5) [of cv frame s] by simp
    ultimately show ?thesis
      by (simp add: process_frame_def logger_log_def)
  qed
  have goes_on: "fst (run_cycle cfg cv inp st) = Continue
        \<and> run_loop cfg cv (inp # rest) st = run_loop cfg cv rest (snd (run_cycle cfg cv inp st))"
    if read: "cap_read inp = Some frame"
  proof -
    have "fst (run_cycle cfg cv inp st) = Continue"
      by (simp add: run_cycle_Some [OF read] Let_def)
    then show ?thesis
      by (cases "run_cycle cfg cv inp st") simp
  qed
  have silent: "send_attempts (snd (run_cycle cfg cv inp st)) = send_attempts st
        \<and> console (snd (run_cycle cfg cv inp st))
          = console st @ [\<lparr>levelname = ERROR, message = ''Error processing frame: '' @ str_exn e\<rparr>]"
    if "cap_read inp = Some frame" and "analysis_fails cv (back_sub st) frame e"
    using handler [of "st\<lparr>latest_frame := Some frame\<rparr>"] that
    by (simp add: run_cycle_Some Let_def process_frame_fields)
  from handler [of st] goes_on silent show ?thesis by blast
qed

theorem analysis_failure_is_no_motion_witness:
  "fst (process_frame example_cv [] example_detector) = False
   \<and> console (snd (process_frame example_cv [] example_detector))
       = console example_detector
         @ [\<lparr>levelname = ERROR, message = ''Error processing frame: empty frame''\<rparr>]
   \<and> run_loop example_cfg example_cv
        [example_cycle [] 10 Delivered, example_cycle [5001] 11 Delivered] example_detector
      = run_loop example_cfg example_cv [example_cycle [5001] 11 Delivered]
          (snd (run_cycle example_cfg example_cv (example_cycle [] 10 Delivered) example_detector))
   \<and> send_attempts (snd (run_cycle example_cfg example_cv (example_cycle [] 10 Delivered)
          example_detector)) = []"
proof -
  have a: "analysis_fails example_cv (back_sub example_detector) [] (Exception ''empty frame'')"
    by (rule in_cvtColor) (simp add: example_cv_def)
  have b: "cap_read (example_cycle [] 10 Delivered) = Some []"
    by (simp add: example_cycle_def)
  have c: "send_attempts example_detector = []"
    by (simp add: example_detector_def fresh_detector_def)
  show ?thesis
    using analysis_failure_is_no_motion [of example_cv example_detector "[]" "Exception ''empty frame''"
                 "example_cycle [] 10 Delivered" example_cfg "[example_cycle [5001] 11 Delivered]"]
      a b c
    by simp
qed

subsection \<open>The daily scheduler\<close>

lemma next_scheduled_cases:
  "next_scheduled now =
     (if tod now < DAILY_PHOTO_TIME then \<lparr>date = date now, tod = DAILY_PHOTO_TIME\<rparr>
      else \<lparr>date = date now + 1, tod = DAILY_PHOTO_TIME\<rparr>)"
  by (simp add: next_scheduled_def combine_def dt_ge_def dt_less_def add_days_def Let_def)

text \<open>
  Claim C4: for every instant \<open>now\<close> the fire instant that the scheduler computes lies
  strictly after \<open>now\<close>, has the configured time of day, and no instant with that time
  of day lies strictly between the two: it is the next occurrence. At 15:00 it is 14:00
  of the following day, at 13:00 it is 14:00 of the same day. The sleep that follows is
  of positive length.
\<close>

theorem next_fire_strictly_after_now:
  "dt_less now (next_scheduled now)
   \<and> tod (next_scheduled now) = DAILY_PHOTO_TIME
   \<and> (dt_less now d \<and> tod d = DAILY_PHOTO_TIME \<longrightarrow> \<not> dt_less d (next_scheduled now))
   \<and> next_scheduled (combine day (dt_time 15 0)) = combine (day + 1) (dt_time 14 0)
   \<and> next_scheduled (combine day (dt_time 13 0)) = combine day (dt_time 14 0)
   \<and> fst (scheduler_plan f now st) = next_scheduled now
   \<and> (tod now < 86400000000 \<longrightarrow> 0 < fst (snd (scheduler_plan f now st)))"
proof -
  have plan: "fst (scheduler_plan f now st) = next_scheduled now"
    by (simp add: scheduler_plan_def Let_def)
  have sleep: "0 < fst (snd (scheduler_plan f now st))" if "tod now < 86400000000"
    using that
    by (simp add: scheduler_plan_def Let_def next_scheduled_cases dt_diff_def DAILY_PHOTO_TIME_def
          dt_time_def)
  have later: "dt_less now (next_scheduled now)"
    by (simp add: next_scheduled_cases dt_less_def)
  have slot: "tod (next_scheduled now) = DAILY_PHOTO_TIME"
    by (simp add: next_scheduled_cases)
  have first: "\<not> dt_less d (next_scheduled now)"
    if "dt_less now d" and "tod d = DAILY_PHOTO_TIME"
    using that by (auto simp: next_scheduled_cases dt_less_def)
  have afternoon: "next_scheduled (combine day (dt_time 15 0)) = combine (day + 1) (dt_time 14 0)"
    by (simp add: next_scheduled_cases combine_def DAILY_PHOTO_TIME_def dt_time_def)
  have morning: "next_scheduled (combine day (dt_time 13 0)) = combine day (dt_time 14 0)"
    by (simp add: next_scheduled_cases combine_def DAILY_PHOTO_TIME_def dt_time_def)
  from later slot first afternoon morning plan sleep show ?thesis by blast
qed

theorem next_fire_strictly_after_now_witness:
  "dt_less (combine 739000 (dt_time 15 0)) (next_scheduled (combine 739000 (dt_time 15 0)))
   \<and> \<not> dt_less (combine 739003 (dt_time 14 0)) (next_scheduled (combine 739000 (dt_time 15 0)))
   \<and> next_scheduled (combine 739000 (dt_time 15 0)) = combine 739001 (dt_time 14 0)"
proof -
  have a: "dt_less (combine 739000 (dt_time 15 0)) (combine 739003 (dt_time 14 0))"
    by (simp add: dt_less_def combine_def)
  have b: "tod (combine 739003 (dt_time 14 0)) = DAILY_PHOTO_TIME"
    by (simp add: combine_def DAILY_PHOTO_TIME_def)
  note t = next_fire_strictly_after_now [of "combine 739000 (dt_time 15 0)" "combine 739003 (dt_time 14 0)" 739000]
  have c: "dt_less (combine 739000 (dt_time 15 0)) (next_scheduled (combine 739000 (dt_time 15 0)))"
    using t by blast
  have d: "\<not> dt_less (combine 739003 (dt_time 14 0)) (next_scheduled (combine 739000 (dt_time 15 0)))"
    using t a b by blast
  have "next_scheduled (combine 739000 (dt_time 15 0)) = combine (739000 + 1) (dt_time 14 0)"
    using t by blast
  then have e: "next_scheduled (combine 739000 (dt_time 15 0)) = combine 739001 (dt_time 14 0)"
    by simp
  from c d e show ?thesis by blast
qed

text \<open>
  Claim C6: when the scheduler fires and no frame has been stored, \<^verbatim>\<open>send_photo\<close> is not
  called and one warning is logged; nothing can raise on that path. The pass that follows
  logs no further warning, makes no call either, and computes the next fire instant as the
  next occurrence of the scheduled time after its own reading \<open>now'\<close> of the clock: the
  following day, when that reading is not before the scheduled time of its day.
\<close>

theorem fire_without_frame_skips_send:
  assumes "latest_frame st = None"
  shows "send_attempts (scheduler_fire cfg f now ctime outcome st) = send_attempts st
    \<and> console (scheduler_fire cfg f now ctime outcome st)
        = console st @ [\<lparr>levelname = WARNING, message = ''No frame available for daily photo''\<rparr>]
    \<and> length (filter (\<lambda>r. levelname r = WARNING)
         (console (snd (snd (scheduler_plan f now' (scheduler_fire cfg f now ctime outcome st))))))
        = length (filter (\<lambda>r. levelname r = WARNING) (console st)) + 1
    \<and> send_attempts (snd (snd (scheduler_plan f now' (scheduler_fire cfg f now ctime outcome st))))
        = send_attempts st
    \<and> fst (scheduler_plan f now' (scheduler_fire cfg f now ctime outcome st)) = next_scheduled now'
    \<and> dt_less now' (next_scheduled now')
    \<and> tod (next_scheduled now') = DAILY_PHOTO_TIME
    \<and> (dt_less now' d \<and> tod d = DAILY_PHOTO_TIME \<longrightarrow> \<not> dt_less d (next_scheduled now'))
    \<and> (\<not> tod now' < DAILY_PHOTO_TIME \<longrightarrow>
          next_scheduled now' = combine (date now' + 1) DAILY_PHOTO_TIME)"
proof -
  let ?st = "scheduler_fire cfg f now ctime outcome st"
  have fire: "?st = st\<lparr>console := console st
      @ [\<lparr>levelname = WARNING, message = ''No frame available for daily photo''\<rparr>]\<rparr>"
    using assms by (simp add: scheduler_fire_def logger_log_def)
  have quiet: "send_attempts ?st = send_attempts st"
    by (simp add: fire)
  have warned: "console ?st
        = console st @ [\<lparr>levelname = WARNING, message = ''No frame available for daily photo''\<rparr>]"
    by (simp add: fire)
  have once: "length (filter (\<lambda>r. levelname r = WARNING) (console (snd (snd (scheduler_plan f now' ?st)))))
        = length (filter (\<lambda>r. levelname r = WARNING) (console st)) + 1"
    by (simp add: fire scheduler_plan_def Let_def logger_log_def)
  have still: "send_attempts (snd (snd (scheduler_plan f now' ?st))) = send_attempts st"
    by (simp add: scheduler_fields quiet)
  have plan: "fst (scheduler_plan f now' ?st) = next_scheduled now'"
    by (simp add: scheduler_plan_def Let_def)
  have later: "dt_less now' (next_scheduled now')"
    by (simp add: next_scheduled_cases dt_less_def)
  have slot: "tod (next_scheduled now') = DAILY_PHOTO_TIME"
    by (simp add: next_scheduled_cases)
  have first: "\<not> dt_less d (next_scheduled now')"
    if "dt_less now' d" and "tod d = DAILY_PHOTO_TIME"
    using that by (auto simp: next_scheduled_cases dt_less_def)
  have tomorrow: "next_scheduled now' = combine (date now' + 1) DAILY_PHOTO_TIME"
    if "\<not> tod now' < DAILY_PHOTO_TIME"
    using that by (simp add: next_scheduled_cases combine_def)
  from quiet warned once still plan later slot first tomorrow show ?thesis by blast
qed

theorem fire_without_frame_skips_send_witness:
  "send_attempts (scheduler_fire example_cfg example_fmt (combine 739000 (dt_time 14 0)) ''now''
      Delivered example_detector) = []
   \<and> fst (scheduler_plan example_fmt (combine 739000 (dt_time 14 0))
        (scheduler_fire example_cfg example_fmt (combine 739000 (dt_time 14 0)) ''now''
          Delivered example_detector)) = combine 739001 (dt_time 14 0)
   \<and> \<not> dt_less (combine 739002 (dt_time 14 0)) (next_scheduled (combine 739000 (dt_time 14 0)))"
proof -
  have a: "latest_frame example_detector = None"
    by (simp add: example_detector_def fresh_detector_def)
  have b: "send_attempts example_detector = []"
    by (simp add: example_detector_def fresh_detector_def)
  have c: "\<not> tod (combine 739000 (dt_time 14 0)) < DAILY_PHOTO_TIME"
    by (simp add: combine_def DAILY_PHOTO_TIME_def)
  have d: "dt_less (combine 739000 (dt_time 14 0)) (combine 739002 (dt_time 14 0))
      \<and> tod (combine 739002 (dt_time 14 0)) = DAILY_PHOTO_TIME"
    by (simp add: dt_less_def combine_def DAILY_PHOTO_TIME_def)
  have e: "combine (date (combine 739000 (dt_time 14 0)) + 1) DAILY_PHOTO_TIME
      = combine 739001 (dt_time 14 0)"
    by (simp add: combine_def DAILY_PHOTO_TIME_def)
  note t = fire_without_frame_skips_send [OF a, of example_cfg example_fmt "combine 739000 (dt_time 14 0)" "''now''"
        Delivered "combine 739000 (dt_time 14 0)" "combine 739002 (dt_time 14 0)"]
  have quiet: "send_attempts (scheduler_fire example_cfg example_fmt (combine 739000 (dt_time 14 0))
      ''now'' Delivered example_detector) = []"
    using t b by simp
  have "fst (scheduler_plan example_fmt (combine 739000 (dt_time 14 0))
        (scheduler_fire example_cfg example_fmt (combine 739000 (dt_time 14 0)) ''now''
          Delivered example_detector)) = next_scheduled (combine 739000 (dt_time 14 0))"
    using t by blast
  moreover have "next_scheduled (combine 739000 (dt_time 14 0))
      = combine (date (combine 739000 (dt_time 14 0)) + 1) DAILY_PHOTO_TIME"
    using t c by blast
  ultimately have plan: "fst (scheduler_plan example_fmt (combine 739000 (dt_time 14 0))
        (scheduler_fire example_cfg example_fmt (combine 739000 (dt_time 14 0)) ''now''
          Delivered example_detector)) = combine 739001 (dt_time 14 0)"
    using e by simp
  have first: "\<not> dt_less (combine 739002 (dt_time 14 0))
      (next_scheduled (combine 739000 (dt_time 14 0)))"
    using t d by blast
  from quiet plan first show ?thesis by blast
qed

subsection \<open>The latest frame\<close>

lemma run_cycle_latest:
  "cap_read inp = Some frame \<Longrightarrow> latest_frame (snd (run_cycle cfg cv inp st)) = Some frame"
  "cap_read inp = Some frame \<Longrightarrow> cap_released (snd (run_cycle cfg cv inp st)) = cap_released st"
  "cap_read inp = None \<Longrightarrow> latest_frame (snd (run_cycle cfg cv inp st)) = latest_frame st"
  by (simp_all add: run_cycle_Some run_cycle_None Let_def process_frame_fields send_photo_fields)

lemma step_after_release:
  "cap_released st \<Longrightarrow>
   cap_released (step cfg cv f ev st) \<and> latest_frame (step cfg cv f ev st) = latest_frame st"
  by (cases ev) (simp_all add: step_def scheduler_fields)

lemma exec_after_release:
  "cap_released st \<Longrightarrow> latest_frame (exec cfg cv f evs st) = latest_frame st"
  by (induction evs arbitrary: st) (simp_all add: step_after_release)

lemma step_capture:
  assumes "\<not> cap_released st"
  shows "cap_read inp = Some frame \<Longrightarrow>
      \<not> cap_released (step cfg cv f (CaptureCycle inp) st)
      \<and> latest_frame (step cfg cv f (CaptureCycle inp) st) = Some frame"
    and "cap_read inp = None \<Longrightarrow>
      cap_released (step cfg cv f (CaptureCycle inp) st)
      \<and> latest_frame (step cfg cv f (CaptureCycle inp) st) = latest_frame st"
proof -
  show "\<not> cap_released (step cfg cv f (CaptureCycle inp) st)
      \<and> latest_frame (step cfg cv f (CaptureCycle inp) st) = Some frame"
    if read: "cap_read inp = Some frame"
    using assms run_cycle_latest(1,2) [OF read, of cfg cv st]
    by (cases "run_cycle cfg cv inp st")
       (simp add: step_def run_cycle_Some [OF read] Let_def split: if_splits)
  show "cap_released (step cfg cv f (CaptureCycle inp) st)
      \<and> latest_frame (step cfg cv f (CaptureCycle inp) st) = latest_frame st"
    if "cap_read inp = None"
    using assms that by (simp add: step_def run_cycle_None run_finally_def)
qed

lemma exec_latest:
  "\<not> cap_released st \<Longrightarrow>
   latest_frame (exec cfg cv f evs st)
     = (if captured evs = [] then latest_frame st else Some (last (captured evs)))"
proof (induction evs arbitrary: st)
  case Nil
  then show ?case by simp
next
  case (Cons ev evs)
  show ?case
  proof (cases ev)
    case (CaptureCycle inp)
    show ?thesis
    proof (cases "cap_read inp")
      case None
      then show ?thesis
        using CaptureCycle step_capture(2) [OF Cons.prems None, of cfg cv f]
        by (simp add: exec_after_release)
    next
      case (Some frame)
      then show ?thesis
        using CaptureCycle step_capture(1) [OF Cons.prems Some, of cfg cv f]
          Cons.IH [of "step cfg cv f (CaptureCycle inp) st"]
        by simp
    qed
  next
    case (SchedulerPlan now)
    then show ?thesis
      using Cons.prems Cons.IH [of "step cfg cv f ev st"]
      by (simp add: step_def scheduler_fields)
  next
    case (SchedulerFire now ctime outcome)
    then show ?thesis
      using Cons.prems Cons.IH [of "step cfg cv f ev st"]
      by (simp add: step_def scheduler_fields)
  qed
qed

text \<open>
  Claim C8: \<open>latest_frame\<close> holds one frame or none. It is empty when the detector has
  been set up; after any sequence of passes of the capture loop and of the scheduler it
  holds the frame of the most recent successful read, and it is empty as long as no read
  has succeeded. A pass that reads a frame stores that frame; a pass whose read fails and
  both halves of a pass of the scheduler leave the field as it was.
\<close>

theorem latest_frame_is_newest_capture:
  "latest_frame (fresh_detector cfg isOpened bs out) = None
   \<and> latest_frame (exec cfg cv f evs (fresh_detector cfg isOpened bs out))
       = (if captured evs = [] then None else Some (last (captured evs)))
   \<and> (cap_read inp = Some frame \<longrightarrow> latest_frame (snd (run_cycle cfg cv inp st)) = Some frame)
   \<and> (cap_read inp = None \<longrightarrow> latest_frame (snd (run_cycle cfg cv inp st)) = latest_frame st)
   \<and> latest_frame (snd (snd (scheduler_plan f now st))) = latest_frame st
   \<and> latest_frame (scheduler_fire cfg f now ctime outcome st) = latest_frame st"
proof -
  have init: "latest_frame (fresh_detector cfg isOpened bs out) = None"
    and live: "\<not> cap_released (fresh_detector cfg isOpened bs out)"
    by (simp_all add: fresh_detector_def)
  have newest: "latest_frame (exec cfg cv f evs (fresh_detector cfg isOpened bs out))
       = (if captured evs = [] then None else Some (last (captured evs)))"
    by (simp add: exec_latest [OF live] init)
  from init newest show ?thesis
    by (simp add: run_cycle_latest scheduler_fields)
qed

theorem latest_frame_is_newest_capture_witness:
  "latest_frame (exec example_cfg example_cv example_fmt
      [SchedulerPlan (combine 739000 (dt_time 13 0)),
       CaptureCycle (example_cycle [7] 10 Delivered),
       CaptureCycle (example_cycle [5001] 11 Delivered),
       SchedulerFire (combine 739000 (dt_time 14 0)) ''now'' Delivered,
       CaptureCycle (example_cycle [8] 12 Delivered)]
      example_detector) = Some [8]
   \<and> latest_frame (snd (run_cycle example_cfg example_cv (example_cycle [7] 10 Delivered)
        example_detector)) = Some [7]"
proof -
  have a: "cap_read (example_cycle [7] 10 Delivered) = Some [7]"
    by (simp add: example_cycle_def)
  have b: "captured [SchedulerPlan (combine 739000 (dt_time 13 0)),
       CaptureCycle (example_cycle [7] 10 Delivered),
       CaptureCycle (example_cycle [5001] 11 Delivered),
       SchedulerFire (combine 739000 (dt_time 14 0)) ''now'' Delivered,
       CaptureCycle (example_cycle [8] 12 Delivered)] = [[7], [5001], [8 :: nat]]"
    by (simp add: example_cycle_def)
  note t = latest_frame_is_newest_capture [of example_cfg True "()" "[]" example_cv example_fmt
      "[SchedulerPlan (combine 739000 (dt_time 13 0)),
        CaptureCycle (example_cycle [7] 10 Delivered),
        CaptureCycle (example_cycle [5001] 11 Delivered),
        SchedulerFire (combine 739000 (dt_time 14 0)) ''now'' Delivered,
        CaptureCycle (example_cycle [8] 12 Delivered)]"
      "example_cycle [7] 10 Delivered" "[7]" example_detector
      "combine 739000 (dt_time 13 0)" "''now''" Delivered]
  have "latest_frame (exec example_cfg example_cv example_fmt
      [SchedulerPlan (combine 739000 (dt_time 13 0)),
       CaptureCycle (example_cycle [7] 10 Delivered),
       CaptureCycle (example_cycle [5001] 11 Delivered),
       SchedulerFire (combine 739000 (dt_time 14 0)) ''now'' Delivered,
       CaptureCycle (example_cycle [8] 12 Delivered)]
      (fresh_detector example_cfg True () []))
     = (if [[7], [5001], [8 :: nat]] = [] then None else Some (last [[7], [5001], [8]]))"
    using t unfolding b by blast
  then have c: "latest_frame (exec example_cfg example_cv example_fmt
      [SchedulerPlan (combine 739000 (dt_time 13 0)),
       CaptureCycle (example_cycle [7] 10 Delivered),
       CaptureCycle (example_cycle [5001] 11 Delivered),
       SchedulerFire (combine 739000 (dt_time 14 0)) ''now'' Delivered,
       CaptureCycle (example_cycle [8] 12 Delivered)]
      example_detector) = Some [8]"
    unfolding example_detector_def by (simp del: exec.simps)
  have d: "latest_frame (snd (run_cycle example_cfg example_cv (example_cycle [7] 10 Delivered)
        example_detector)) = Some [7]"
    using t a unfolding example_detector_def by blast
  from c d show ?thesis by blast
qed

subsection \<open>Start-up\<close>




subsection \<open>Masking of credentials\<close>

lemma sublist_skip_foreign:
  "c \<notin> set y \<Longrightarrow> sublist y (c # r) \<Longrightarrow> sublist y r"
  by (cases y) (auto simp: sublist_Cons_right)

lemma sublist_skip_foreign_list:
  "set new \<inter> set y = {} \<Longrightarrow> sublist y (new @ r) \<Longrightarrow> sublist y r"
  by (induction new) (auto dest: sublist_skip_foreign)

lemma prefix_foreign:
  "set new \<inter> set p = {} \<Longrightarrow> new \<noteq> [] \<Longrightarrow> prefix p (new @ r) \<Longrightarrow> p = []"
  by (cases new; cases p) auto

lemma replace_nonempty_hit:
  "old \<noteq> [] \<and> prefix old (c # cs) \<Longrightarrow>
   replace_nonempty old new (c # cs)
     = new @ replace_nonempty old new (drop (length old) (c # cs))"
  by (subst replace_nonempty.simps(2)) (rule if_P)

lemma replace_nonempty_miss:
  "\<not> (old \<noteq> [] \<and> prefix old (c # cs)) \<Longrightarrow>
   replace_nonempty old new (c # cs) = c # replace_nonempty old new cs"
  by (subst replace_nonempty.simps(2)) (rule if_not_P)

lemma replace_nonempty_prefix:
  "set new \<inter> set p = {} \<Longrightarrow> new \<noteq> [] \<Longrightarrow>
   prefix p (replace_nonempty old new t) \<Longrightarrow> prefix p t"
proof (induction old new t arbitrary: p rule: replace_nonempty.induct)
  case (1 old new)
  then show ?case by simp
next
  case (2 old new c cs)
  show ?case
  proof (cases "old \<noteq> [] \<and> prefix old (c # cs)")
    case True
    then have "prefix p (new @ replace_nonempty old new (drop (length old) (c # cs)))"
      using "2.prems"(3) by (simp only: replace_nonempty_hit [OF True])
    then have "p = []"
      using prefix_foreign "2.prems"(1,2) by blast
    then show ?thesis by simp
  next
    case False
    then have step: "prefix p (c # replace_nonempty old new cs)"
      using "2.prems"(3) by (simp only: replace_nonempty_miss [OF False])
    show ?thesis
    proof (cases p)
      case Nil
      then show ?thesis by simp
    next
      case (Cons x xs)
      then have "x = c" and "prefix xs (replace_nonempty old new cs)"
        using step by simp_all
      moreover have "set new \<inter> set xs = {}"
        using "2.prems"(1) Cons by auto
      ultimately have "prefix xs cs"
        using "2.IH"(2) [OF False _ "2.prems"(2)] by blast
      then show ?thesis
        using Cons \<open>x = c\<close> by simp
    qed
  qed
qed

lemma replace_nonempty_sublist:
  "set new \<inter> set y = {} \<Longrightarrow> new \<noteq> [] \<Longrightarrow>
   sublist y (replace_nonempty old new t) \<Longrightarrow> sublist y t"
proof (induction old new t rule: replace_nonempty.induct)
  case (1 old new)
  then show ?case by simp
next
  case (2 old new c cs)
  show ?case
  proof (cases "old \<noteq> [] \<and> prefix old (c # cs)")
    case True
    then have "sublist y (new @ replace_nonempty old new (drop (length old) (c # cs)))"
      using "2.prems"(3) by (simp only: replace_nonempty_hit [OF True])
    then have "sublist y (replace_nonempty old new (drop (length old) (c # cs)))"
      using sublist_skip_foreign_list "2.prems"(1) by blast
    then have "sublist y (drop (length old) (c # cs))"
      using "2.IH"(1) [OF True "2.prems"(1,2)] by blast
    then show ?thesis
      using sublist_drop sublist_order.order_trans by blast
  next
    case False
    then have "sublist y (c # replace_nonempty old new cs)"
      using "2.prems"(3) by (simp only: replace_nonempty_miss [OF False])
    then consider "prefix y (c # replace_nonempty old new cs)"
      | "sublist y (replace_nonempty old new cs)"
      by (auto simp: sublist_Cons_right)
    then show ?thesis
    proof cases
      case 1
      then have "prefix y (replace_nonempty old new (c # cs))"
        using False by (simp only: replace_nonempty_miss [OF False])
      then have "prefix y (c # cs)"
        using replace_nonempty_prefix "2.prems"(1,2) by blast
      then show ?thesis by (simp add: sublist_Cons_right)
    next
      case 2
      then have "sublist y cs"
        using "2.IH"(2) [OF False "2.prems"(1,2)] by blast
      then show ?thesis by (simp add: sublist_Cons_right)
    qed
  qed
qed

lemma replace_nonempty_removes:
  "old \<noteq> [] \<Longrightarrow> set new \<inter> set old = {} \<Longrightarrow> new \<noteq> [] \<Longrightarrow>
   \<not> sublist old (replace_nonempty old new t)"
proof (induction old new t rule: replace_nonempty.induct)
  case (1 old new)
  then show ?case by simp
next
  case (2 old new c cs)
  show ?case
  proof (cases "old \<noteq> [] \<and> prefix old (c # cs)")
    case True
    have "\<not> sublist old (replace_nonempty old new (drop (length old) (c # cs)))"
      using "2.IH"(1) [OF True "2.prems"] .
    then have "\<not> sublist old (new @ replace_nonempty old new (drop (length old) (c # cs)))"
      using sublist_skip_foreign_list "2.prems"(2) by blast
    then show ?thesis by (simp add: replace_nonempty_hit [OF True] del: replace_nonempty.simps)
  next
    case False
    have rest: "\<not> sublist old (replace_nonempty old new cs)"
      using "2.IH"(2) [OF False "2.prems"] .
    have "\<not> prefix old (c # replace_nonempty old new cs)"
    proof
      assume "prefix old (c # replace_nonempty old new cs)"
      then have "prefix old (replace_nonempty old new (c # cs))"
        using False by (simp only: replace_nonempty_miss [OF False])
      then have "prefix old (c # cs)"
        using replace_nonempty_prefix "2.prems"(2,3) by blast
      then show False using False "2.prems"(1) by simp
    qed
    then show ?thesis
      using rest by (simp only: replace_nonempty_miss [OF False] sublist_Cons_right) simp
  qed
qed


lemma mask_secrets_sublist:
  "CHR ''*'' \<notin> set y \<Longrightarrow> sublist y (mask_secrets secrets t) \<Longrightarrow> sublist y t"
proof (induction secrets arbitrary: t)
  case Nil
  then show ?case by simp
next
  case (Cons s ss)
  show ?case
  proof (cases "s \<noteq> [] \<and> 4 < length s")
    case True
    then have "sublist y (mask_secrets ss (replace_nonempty s ''***'' t))"
      using Cons.prems(2) by (simp add: str_replace_def)
    then have "sublist y (replace_nonempty s ''***'' t)"
      using Cons.IH Cons.prems(1) by blast
    then show ?thesis
      using replace_nonempty_sublist [of "''***''" y s t] Cons.prems(1) by simp
  next
    case False
    then have "sublist y (mask_secrets ss t)"
      using Cons.prems(2) by auto
    then show ?thesis
      using Cons.IH Cons.prems(1) by blast
  qed
qed

lemma mask_secrets_removes:
  "secret \<in> set secrets \<Longrightarrow> 4 < length secret \<Longrightarrow> CHR ''*'' \<notin> set secret \<Longrightarrow>
   \<not> sublist secret (mask_secrets secrets t)"
proof (induction secrets arbitrary: t)
  case Nil
  then show ?case by simp
next
  case (Cons s ss)
  show ?case
  proof (cases "secret = s")
    case True
    have ne: "s \<noteq> []" using True Cons.prems(2) by auto
    have "\<not> sublist s (replace_nonempty s ''***'' t)"
      using replace_nonempty_removes [of s "''***''" t] ne True Cons.prems(3) by simp
    then have "\<not> sublist s (mask_secrets ss (replace_nonempty s ''***'' t))"
      using mask_secrets_sublist True Cons.prems(3) by blast
    then show ?thesis
      using True ne Cons.prems(2) by (simp add: str_replace_def)
  next
    case False
    then have "secret \<in> set ss" using Cons.prems(1) by simp
    then show ?thesis
      using Cons.IH [OF _ Cons.prems(2,3)] by simp
  qed
qed

lemma mask_secrets_short:
  "\<forall>s \<in> set secrets. length s \<le> 4 \<Longrightarrow> mask_secrets secrets t = t"
  by (induction secrets arbitrary: t) auto

text \<open>
  Claim C9, as the specification states it, has no credential ever appear in a line of
  the console. The formatter masks only secrets of more than four characters, and the
  handler for exceptions other than \<^verbatim>\<open>TelegramError\<close> in \<^verbatim>\<open>send_photo\<close> does no masking
  of its own: with the chat id \<^verbatim>\<open>4242\<close>, an error text that names the chat reaches the
  console as it is.
\<close>

theorem short_chat_id_reaches_console:
  "sublist ''4242''
     (console_line \<lparr>TELEGRAM_TOKEN = ''123456:ABCDEF'', CHAT_ID = ''4242''\<rparr>
        ''2026-11-04 14:00:00,000'' ''__main__''
        (last (console (send_photo \<lparr>TELEGRAM_TOKEN = ''123456:ABCDEF'', CHAT_ID = ''4242''\<rparr>
           ''now'' (Raised (Exception ''chat 4242 unreachable'')) [5001] None example_detector))))"
proof -
  have "console_line \<lparr>TELEGRAM_TOKEN = ''123456:ABCDEF'', CHAT_ID = ''4242''\<rparr>
        ''2026-11-04 14:00:00,000'' ''__main__''
        (last (console (send_photo \<lparr>TELEGRAM_TOKEN = ''123456:ABCDEF'', CHAT_ID = ''4242''\<rparr>
           ''now'' (Raised (Exception ''chat 4242 unreachable'')) [5001] None example_detector)))
      = ''2026-11-04 14:00:00,000 - __main__ - ERROR - Unexpected error sending photo: chat ''
        @ ''4242'' @ '' unreachable''"
    by (simp add: console_line_def SecureFormatter_format_def Formatter_format_def send_photo_def
          logger_log_def example_detector_def fresh_detector_def caption_or_default_def
          str_replace_def)
  then show ?thesis
    by (simp only: sublist_appendI)
qed

text \<open>
  Claim C9, amended: a credential of more than four characters that contains no asterisk
  occurs in no line that the formatter writes, whatever the record. When both credentials
  have at most four characters the formatter changes nothing. The text of a
  \<^verbatim>\<open>TelegramError\<close>, which \<^verbatim>\<open>send_photo\<close> masks itself before logging, contains neither
  credential, of whatever length, provided they contain no asterisk.
\<close>

theorem long_secret_masked:
  "(4 < length (TELEGRAM_TOKEN cfg) \<and> CHR ''*'' \<notin> set (TELEGRAM_TOKEN cfg) \<longrightarrow>
      \<not> sublist (TELEGRAM_TOKEN cfg) (console_line cfg asctime name r))
   \<and> (4 < length (CHAT_ID cfg) \<and> CHR ''*'' \<notin> set (CHAT_ID cfg) \<longrightarrow>
      \<not> sublist (CHAT_ID cfg) (console_line cfg asctime name r))
   \<and> (length (TELEGRAM_TOKEN cfg) \<le> 4 \<and> length (CHAT_ID cfg) \<le> 4 \<longrightarrow>
      console_line cfg asctime name r = Formatter_format asctime name r)
   \<and> (TELEGRAM_TOKEN cfg \<noteq> [] \<and> CHR ''*'' \<notin> set (TELEGRAM_TOKEN cfg)
        \<and> CHAT_ID cfg \<noteq> [] \<and> CHR ''*'' \<notin> set (CHAT_ID cfg) \<longrightarrow>
      \<not> sublist (TELEGRAM_TOKEN cfg) (sanitize cfg m)
      \<and> \<not> sublist (CHAT_ID cfg) (sanitize cfg m))"
proof -
  have clean: "\<not> sublist (TELEGRAM_TOKEN cfg) (sanitize cfg m)
      \<and> \<not> sublist (CHAT_ID cfg) (sanitize cfg m)"
    if ok: "TELEGRAM_TOKEN cfg \<noteq> [] \<and> CHR ''*'' \<notin> set (TELEGRAM_TOKEN cfg)
        \<and> CHAT_ID cfg \<noteq> [] \<and> CHR ''*'' \<notin> set (CHAT_ID cfg)"
  proof -
    define m1 where "m1 = (if sublist (TELEGRAM_TOKEN cfg) m
                           then str_replace m (TELEGRAM_TOKEN cfg) ''***'' else m)"
    have m2: "sanitize cfg m = (if sublist (CHAT_ID cfg) m1
                                then str_replace m1 (CHAT_ID cfg) ''***'' else m1)"
      by (simp add: sanitize_def m1_def Let_def)
    have no_token: "\<not> sublist (TELEGRAM_TOKEN cfg) m1"
      using ok replace_nonempty_removes [of "TELEGRAM_TOKEN cfg" "''***''" m]
      by (simp add: m1_def str_replace_def)
    have "\<not> sublist (TELEGRAM_TOKEN cfg) (sanitize cfg m)"
      using ok no_token replace_nonempty_sublist [of "''***''" "TELEGRAM_TOKEN cfg" "CHAT_ID cfg" m1]
      by (auto simp: m2 str_replace_def)
    moreover have "\<not> sublist (CHAT_ID cfg) (sanitize cfg m)"
      using ok replace_nonempty_removes [of "CHAT_ID cfg" "''***''" m1]
      by (simp add: m2 str_replace_def)
    ultimately show ?thesis by blast
  qed
  have token: "\<not> sublist (TELEGRAM_TOKEN cfg) (console_line cfg asctime name r)"
    if "4 < length (TELEGRAM_TOKEN cfg) \<and> CHR ''*'' \<notin> set (TELEGRAM_TOKEN cfg)"
    using that mask_secrets_removes [of "TELEGRAM_TOKEN cfg" "[TELEGRAM_TOKEN cfg, CHAT_ID cfg]"]
    by (simp add: console_line_def SecureFormatter_format_def del: mask_secrets.simps)
  have chat: "\<not> sublist (CHAT_ID cfg) (console_line cfg asctime name r)"
    if "4 < length (CHAT_ID cfg) \<and> CHR ''*'' \<notin> set (CHAT_ID cfg)"
    using that mask_secrets_removes [of "CHAT_ID cfg" "[TELEGRAM_TOKEN cfg, CHAT_ID cfg]"]
    by (simp add: console_line_def SecureFormatter_format_def del: mask_secrets.simps)
  have short: "console_line cfg asctime name r = Formatter_format asctime name r"
    if "length (TELEGRAM_TOKEN cfg) \<le> 4 \<and> length (CHAT_ID cfg) \<le> 4"
    using that mask_secrets_short [of "[TELEGRAM_TOKEN cfg, CHAT_ID cfg]"]
    by (simp add: console_line_def SecureFormatter_format_def del: mask_secrets.simps)
  from token chat short clean show ?thesis by blast
qed

theorem long_secret_masked_witness:
  "\<not> sublist ''123456:ABCDEF''
     (console_line example_cfg ''2026-11-04 14:00:00,000'' ''__main__''
        \<lparr>levelname = ERROR,
         message = ''Unexpected error sending photo: bot123456:ABCDEF to 987654321 failed''\<rparr>)
   \<and> \<not> sublist ''987654321''
     (console_line example_cfg ''2026-11-04 14:00:00,000'' ''__main__''
        \<lparr>levelname = ERROR,
         message = ''Unexpected error sending photo: bot123456:ABCDEF to 987654321 failed''\<rparr>)"
proof -
  have a: "4 < length (TELEGRAM_TOKEN example_cfg) \<and> CHR ''*'' \<notin> set (TELEGRAM_TOKEN example_cfg)"
    by (simp add: example_cfg_def)
  have b: "4 < length (CHAT_ID example_cfg) \<and> CHR ''*'' \<notin> set (CHAT_ID example_cfg)"
    by (simp add: example_cfg_def)
  have c: "TELEGRAM_TOKEN example_cfg = ''123456:ABCDEF''" "CHAT_ID example_cfg = ''987654321''"
    by (simp_all add: example_cfg_def)
  note t = long_secret_masked [of example_cfg "''2026-11-04 14:00:00,000''" "''__main__''"
      "\<lparr>levelname = ERROR,
        message = ''Unexpected error sending photo: bot123456:ABCDEF to 987654321 failed''\<rparr>"]
  show ?thesis
    using t a b unfolding c by blast
qed

end
